theory Spec2Isabelle
  imports Main "HOL-Library.Word"
begin

unbundle bit_operations_syntax

section \<open>The MTProto session core of ll-mtproto\<close>

text \<open>
  A shallow embedding of \<^verbatim>\<open>ll_mtproto/network/mtproto.py\<close>: the \<^verbatim>\<open>AuthKey\<close>
  object, the message-id generator, and the encrypted read and write paths of
  \<^verbatim>\<open>MTProto\<close>. Python integers are \<open>int\<close>, \<^verbatim>\<open>bytes\<close> are lists of 8-bit
  words, \<^verbatim>\<open>None\<close> is \<open>None\<close>. Every \<^verbatim>\<open>raise\<close> is a value of \<open>error\<close>, and
  since an exception leaves the mutations made before it in place, the stateful
  operations return their outcome together with the state they leave behind.
\<close>

subsection \<open>Bytes and Python slices\<close>

type_synonym byte = "8 word"
type_synonym bytes = "byte list"

text \<open>\<^verbatim>\<open>xs[i:j]\<close> for \<open>0 \<le> i \<le> j\<close>; a slice never raises, it is cut at the end.\<close>

definition slice :: "nat \<Rightarrow> nat \<Rightarrow> 'a list \<Rightarrow> 'a list" where
  "slice i j xs = take (j - i) (drop i xs)"

text \<open>\<^verbatim>\<open>xs[-n:]\<close>: the last \<open>n\<close> elements, all of \<open>xs\<close> when it is shorter.\<close>

definition last_slice :: "nat \<Rightarrow> 'a list \<Rightarrow> 'a list" where
  "last_slice n xs = drop (length xs - n) xs"

text \<open>\<^verbatim>\<open>int.from_bytes(bs, "big")\<close>, \<^verbatim>\<open>int.from_bytes(bs, "little", signed=False)\<close>
  and \<^verbatim>\<open>int.from_bytes(bs, "little", signed=True)\<close>.\<close>

definition from_bytes_big :: "bytes \<Rightarrow> int" where
  "from_bytes_big bs = foldl (\<lambda>acc b. acc * 256 + uint b) 0 bs"

definition from_bytes_little :: "bytes \<Rightarrow> int" where
  "from_bytes_little bs = foldr (\<lambda>b acc. uint b + 256 * acc) bs 0"

definition from_bytes_little_signed :: "bytes \<Rightarrow> int" where
  "from_bytes_little_signed bs =
     (let u = from_bytes_little bs; n = 8 * length bs
      in if 0 < n \<and> 2 ^ (n - 1) \<le> u then u - 2 ^ n else u)"

text \<open>\<^verbatim>\<open>secrets.randbits(k)\<close>: a non-negative integer of \<open>k\<close> random bits. The
  entropy drawn is an input of the model; the call keeps its low \<open>k\<close> bits.\<close>

definition randbits :: "nat \<Rightarrow> nat \<Rightarrow> int" where
  "randbits k entropy = int (entropy mod 2 ^ k)"

text \<open>\<^verbatim>\<open>os.urandom(n)\<close>: \<open>n\<close> bytes of the entropy source.\<close>

definition urandom :: "(nat \<Rightarrow> byte) \<Rightarrow> nat \<Rightarrow> bytes" where
  "urandom source n = map source [0..<n]"

subsection \<open>Primitives of the other modules\<close>

text \<open>
  The hash functions, AES-IGE, \<^verbatim>\<open>to_bytes\<close> and the safe-prime table live in
  modules outside \<^verbatim>\<open>mtproto.py\<close>; the functions below take them as a parameter.
  An AES-IGE object is the pair of its key and its initialisation vector.
\<close>

record primitives =
  sha1 :: "bytes \<Rightarrow> bytes"
  sha256 :: "bytes \<Rightarrow> bytes"
  ige_encrypt :: "bytes \<times> bytes \<Rightarrow> bytes \<Rightarrow> bytes"
  ige_decrypt :: "bytes \<times> bytes \<Rightarrow> bytes \<Rightarrow> bytes"
  to_bytes :: "int \<Rightarrow> bytes"
  is_safe_dh_prime :: "int \<Rightarrow> int \<Rightarrow> bool"

text \<open>Modelled from the spec: \<^verbatim>\<open>byteutils.xor\<close>, the bytewise exclusive or of
  two byte strings (the spec's \<^verbatim>\<open>new_nonce[0..8] XOR server_nonce[0..8]\<close>).\<close>

definition xor_bytes :: "bytes \<Rightarrow> bytes \<Rightarrow> bytes" where
  "xor_bytes a b = map2 (\<lambda>x y. x XOR y) a b"

text \<open>Modelled from the spec: \<^verbatim>\<open>encryption.prepare_key\<close>, the key derivation of
  section 4.1: with \<open>x = 0\<close> for a client message and \<open>8\<close> otherwise,
  \<^verbatim>\<open>sha256_a = SHA256(msg_key || auth_key[x..x+36])\<close>,
  \<^verbatim>\<open>sha256_b = SHA256(auth_key[x+40..x+76] || msg_key)\<close>,
  \<^verbatim>\<open>aes_key = sha256_a[0..8] || sha256_b[8..24] || sha256_a[24..32]\<close>,
  \<^verbatim>\<open>aes_iv = sha256_b[0..8] || sha256_a[8..24] || sha256_b[24..32]\<close>.\<close>

definition prepare_key :: "primitives \<Rightarrow> bytes \<Rightarrow> bytes \<Rightarrow> bool \<Rightarrow> bytes \<times> bytes" where
  "prepare_key P auth_key msg_key from_client =
     (let x = (if from_client then 0 else 8);
          sha256_a = sha256 P (msg_key @ slice x (x + 36) auth_key);
          sha256_b = sha256 P (slice (x + 40) (x + 76) auth_key @ msg_key);
          aes_key = slice 0 8 sha256_a @ slice 8 24 sha256_b @ slice 24 32 sha256_a;
          aes_iv = slice 0 8 sha256_b @ slice 8 24 sha256_a @ slice 24 32 sha256_b
      in (aes_key, aes_iv))"

subsection \<open>Errors\<close>

text \<open>One constructor for each \<^verbatim>\<open>raise\<close> of the read path, the write path and the
  end of the handshake. \<open>DH_exchange_failed\<close> carries the message of a failure of
  the first two handshake rounds.\<close>

datatype error =
    DH_exchange_failed string
  | DH_unknown_dh_prime
  | DH_g_a_le_1
  | DH_g_a_ge_dh_prime_minus_1
  | DH_g_a_too_small
  | DH_g_a_too_large
  | DH_g_b_le_1
  | DH_g_b_ge_dh_prime_minus_1
  | DH_g_b_too_small
  | DH_g_b_too_large
  | DH_round_3_failed string
  | DH_gen_not_ok string
  | Corrupted_authorization
  | Too_many_requests
  | Unknown_auth_key_id
  | Inner_data_unreadable
  | Wrong_padding_length
  | Unknown_msg_key
  | Unknown_session_id
  | Need_odd_parity
  | Duplicated_message
  | Clock_not_synchronised
  | Body_unreadable
  | Not_serializable
  | Auth_key_missing

subsection \<open>AuthKey\<close>

text \<open>The fields of \<^verbatim>\<open>AuthKey\<close>; the lock is left to the scheduler.\<close>

record AuthKey =
  auth_key :: "bytes option"
  auth_key_id :: "bytes option"
  session_id :: "int option"
  server_salt :: "int option"
  seq_no :: int

text \<open>\<^verbatim>\<open>sha1(auth_key)[-8:]\<close>\<close>

definition get_auth_key_id :: "primitives \<Rightarrow> bytes \<Rightarrow> bytes" where
  "get_auth_key_id P k = last_slice 8 (sha1 P k)"

definition new_session_id :: "nat \<Rightarrow> int" where
  "new_session_id entropy = randbits 64 entropy"

text \<open>\<^verbatim>\<open>AuthKey.__init__\<close>. \<^verbatim>\<open>seq_no or -1\<close> is \<open>-1\<close> when \<^verbatim>\<open>seq_no\<close> is falsy:
  \<^verbatim>\<open>None\<close> or \<open>0\<close>.\<close>

definition AuthKey_init ::
  "bytes option \<Rightarrow> bytes option \<Rightarrow> int option \<Rightarrow> int option \<Rightarrow> int option \<Rightarrow> AuthKey" where
  "AuthKey_init auth_key' auth_key_id' session_id' server_salt' seq_no' =
     \<lparr>auth_key = auth_key',
      auth_key_id = auth_key_id',
      session_id = session_id',
      server_salt = server_salt',
      seq_no = (case seq_no' of None \<Rightarrow> - 1 | Some n \<Rightarrow> if n = 0 then - 1 else n)\<rparr>"


text \<open>The pickled state: the pair \<^verbatim>\<open>(auth_key, server_salt)\<close>, or the key alone.\<close>

datatype pickled = State_pair "bytes option" "int option" | State_bytes bytes

definition getstate :: "AuthKey \<Rightarrow> pickled" where
  "getstate a = State_pair (auth_key a) (server_salt a)"


subsection \<open>The connection and its message-id generator\<close>

text \<open>The mutable fields of \<^verbatim>\<open>MTProto\<close>: \<^verbatim>\<open>_last_message_id\<close>, \<^verbatim>\<open>_auth_key\<close> and
  \<^verbatim>\<open>_last_msg_ids\<close>, a \<^verbatim>\<open>deque(maxlen=64)\<close>.\<close>

record MTProto =
  last_message_id :: int
  session_auth_key :: AuthKey
  last_msg_ids :: "int list"

definition MTProto_init :: "AuthKey \<Rightarrow> MTProto" where
  "MTProto_init a = \<lparr>last_message_id = 0, session_auth_key = a, last_msg_ids = []\<rparr>"

text \<open>Appending to a full \<^verbatim>\<open>deque(maxlen=64)\<close> drops its oldest element.\<close>

definition deque_append :: "int list \<Rightarrow> int \<Rightarrow> int list" where
  "deque_append xs x = (let ys = xs @ [x] in drop (length ys - 64) ys)"

text \<open>\<^verbatim>\<open>MTProto._get_message_id\<close>. \<open>now\<close> is the integer \<^verbatim>\<open>int(time.time() * 2 ** 30)\<close>
  and \<open>entropy\<close> feeds \<^verbatim>\<open>secrets.randbits(12)\<close>.\<close>

definition get_message_id :: "int \<Rightarrow> nat \<Rightarrow> MTProto \<Rightarrow> int \<times> MTProto" where
  "get_message_id now entropy st =
     (let message_id = (now OR randbits 12 entropy) * 4;
          message_id = (if message_id \<le> last_message_id st
                        then last_message_id st + 4 else message_id)
      in (message_id, st\<lparr>last_message_id := message_id\<rparr>))"

text \<open>A \<^verbatim>\<open>message\<close> value; \<open>body\<close> is the serialized boxed body on the way out and
  on the wire, and the decoded structure in what \<^verbatim>\<open>read\<close> returns.\<close>

record 'b message =
  msg_id :: int
  seqno :: int
  body :: 'b

text \<open>\<^verbatim>\<open>MTProto.box_message\<close>\<close>

definition box_message ::
  "int \<Rightarrow> bytes \<Rightarrow> int \<Rightarrow> nat \<Rightarrow> MTProto \<Rightarrow> (bytes message \<times> int) \<times> MTProto" where
  "box_message seq_no' boxed_body now entropy st =
     (let (message_id, st') = get_message_id now entropy st
      in ((\<lparr>msg_id = message_id, seqno = seq_no', body = boxed_body\<rparr>, message_id), st'))"

subsection \<open>The handshake\<close>

text \<open>The fields of \<^verbatim>\<open>server_DH_inner_data\<close> that the end of the handshake reads
  (\<^verbatim>\<open>dh_prime\<close>, \<^verbatim>\<open>g\<close>, \<^verbatim>\<open>g_a\<close>).\<close>

record server_DH_inner_data =
  inner_dh_prime :: bytes
  inner_g :: int
  inner_g_a :: bytes

text \<open>
  What one run of \<^verbatim>\<open>_create_auth_key\<close> receives from outside. \<open>rounds_1_2\<close> is
  the outcome of the first two rounds (the requests, the server's replies, and the
  constructor, fingerprint, nonce and answer-hash checks up to the parsed
  \<^verbatim>\<open>params2\<close>): the message of the exception raised there, or the validated
  inner data. \<open>round_3\<close> is the outcome of the last exchange: a failure of the
  transport or codec, or the constructor name of the reply.
\<close>

record handshake =
  rounds_1_2 :: "string + server_DH_inner_data"
  new_nonce :: bytes
  server_nonce :: bytes
  b_entropy :: nat
  session_entropy :: nat
  round_3 :: "string + string"

text \<open>\<^verbatim>\<open>b\<close>, from \<^verbatim>\<open>secrets.randbits(2048)\<close>.\<close>

definition handshake_b :: "handshake \<Rightarrow> int" where
  "handshake_b hs = randbits 2048 (b_entropy hs)"

text \<open>The bound \<^verbatim>\<open>2 ** (2048 - 64)\<close> of the range checks on \<^verbatim>\<open>g_a\<close> and \<^verbatim>\<open>g_b\<close>.\<close>

definition dh_margin :: int where
  "dh_margin = 2 ^ (2048 - 64)"

text \<open>
  \<^verbatim>\<open>MTProto._create_auth_key\<close>, from the parsed \<^verbatim>\<open>params2\<close> on. Past the checks
  on \<^verbatim>\<open>g_a\<close> the modulus exceeds 3, so the built-in \<^verbatim>\<open>pow\<close> does not raise
  and is the power modulo \<^verbatim>\<open>dh_prime\<close>. The four fields of the key are
  assigned before the last round, and stay assigned when that round fails.
\<close>

definition create_auth_key :: "primitives \<Rightarrow> handshake \<Rightarrow> AuthKey \<Rightarrow> (error + unit) \<times> AuthKey" where
  "create_auth_key P hs a =
     (case rounds_1_2 hs of
        Inl msg \<Rightarrow> (Inl (DH_exchange_failed msg), a)
      | Inr params2 \<Rightarrow>
          let b = handshake_b hs;
              dh_prime = from_bytes_big (inner_dh_prime params2);
              g = inner_g params2;
              g_a = from_bytes_big (inner_g_a params2)
          in if \<not> is_safe_dh_prime P g dh_prime then (Inl DH_unknown_dh_prime, a)
             else if g_a \<le> 1 then (Inl DH_g_a_le_1, a)
             else if g_a \<ge> dh_prime - 1 then (Inl DH_g_a_ge_dh_prime_minus_1, a)
             else if g_a < dh_margin then (Inl DH_g_a_too_small, a)
             else if g_a > dh_prime - dh_margin then (Inl DH_g_a_too_large, a)
             else
               let g_b = g ^ nat b mod dh_prime;
                   shared = g_a ^ nat b mod dh_prime
               in if g_b \<le> 1 then (Inl DH_g_b_le_1, a)
                  else if g_b \<ge> dh_prime - 1 then (Inl DH_g_b_ge_dh_prime_minus_1, a)
                  else if g_b < dh_margin then (Inl DH_g_b_too_small, a)
                  else if g_b > dh_prime - dh_margin then (Inl DH_g_b_too_large, a)
                  else
                    let a1 = a\<lparr>auth_key := Some (to_bytes P shared)\<rparr>;
                        a2 = a1\<lparr>auth_key_id :=
                                 Some (get_auth_key_id P (to_bytes P shared))\<rparr>;
                        a3 = a2\<lparr>server_salt :=
                                 Some (from_bytes_little_signed
                                   (xor_bytes (take 8 (new_nonce hs)) (take 8 (server_nonce hs))))\<rparr>;
                        a4 = a3\<lparr>session_id := Some (new_session_id (session_entropy hs))\<rparr>
                    in (case round_3 hs of
                          Inl msg \<Rightarrow> (Inl (DH_round_3_failed msg), a4)
                        | Inr params3 \<Rightarrow>
                            if params3 \<noteq> ''dh_gen_ok'' then (Inl (DH_gen_not_ok params3), a4)
                            else (Inr (), a4)))"

text \<open>\<^verbatim>\<open>MTProto._get_auth_key\<close>: the handshake runs only while the key is
  \<^verbatim>\<open>None\<close>; the two fields are returned as they then stand.\<close>

definition get_auth_key ::
  "primitives \<Rightarrow> handshake \<Rightarrow> AuthKey \<Rightarrow> (error + bytes option \<times> bytes option) \<times> AuthKey" where
  "get_auth_key P hs a =
     (case auth_key a of
        None \<Rightarrow>
          (case create_auth_key P hs a of
             (Inl e, a') \<Rightarrow> (Inl e, a')
           | (Inr _, a') \<Rightarrow> (Inr (auth_key a', auth_key_id a'), a'))
      | Some _ \<Rightarrow> (Inr (auth_key a, auth_key_id a), a))"

subsection \<open>Wire layouts\<close>

text \<open>A little-endian field of \<open>n\<close> bytes (two's complement for a negative value).\<close>

definition int_to_le :: "nat \<Rightarrow> int \<Rightarrow> bytes" where
  "int_to_le n x = map (\<lambda>i. word_of_int (x div 256 ^ i)) [0..<n]"

text \<open>Modelled from the spec: \<^verbatim>\<open>get_flat_bytes\<close> of the bare \<^verbatim>\<open>message_inner_data\<close>
  built by \<^verbatim>\<open>write\<close> (the TL codec is outside \<^verbatim>\<open>mtproto.py\<close>). The plaintext is
  \<^verbatim>\<open>salt: i64_le || session_id: u64_le || msg_id: u64_le || seq_no: u32_le ||
  length: u32_le || TL-serialized body\<close>; a field that is \<^verbatim>\<open>None\<close> cannot be
  serialized.\<close>

definition message_inner_data_flat :: "int option \<Rightarrow> int option \<Rightarrow> bytes message \<Rightarrow> bytes option" where
  "message_inner_data_flat salt' session_id' m =
     (case salt' of
        None \<Rightarrow> None
      | Some s \<Rightarrow>
          (case session_id' of
             None \<Rightarrow> None
           | Some i \<Rightarrow>
               Some (int_to_le 8 s @ int_to_le 8 i @ int_to_le 8 (msg_id m)
                     @ int_to_le 4 (seqno m) @ int_to_le 4 (int (length (body m)))
                     @ body m)))"

text \<open>Modelled from the spec: \<^verbatim>\<open>get_flat_bytes\<close> of the bare \<^verbatim>\<open>encrypted_message\<close>,
  the wire frame \<^verbatim>\<open>auth_key_id: u64_le || msg_key: 16B || ciphertext\<close>.\<close>

definition encrypted_message_flat :: "int \<Rightarrow> bytes \<Rightarrow> bytes \<Rightarrow> bytes" where
  "encrypted_message_flat auth_key_id' msg_key encrypted_data =
     int_to_le 8 auth_key_id' @ msg_key @ encrypted_data"

subsection \<open>The write path\<close>

text \<open>\<^verbatim>\<open>MTProto.write\<close> (\<open>write\<close> is a keyword of the proof language, hence the
  longer name). The result is the frame handed to the link, or the error
  raised before anything was sent. \<open>source\<close> feeds \<^verbatim>\<open>os.urandom\<close>.\<close>

definition write_message ::
  "primitives \<Rightarrow> handshake \<Rightarrow> (nat \<Rightarrow> byte) \<Rightarrow> bytes message \<Rightarrow> MTProto \<Rightarrow> (error + bytes) \<times> MTProto" where
  "write_message P hs source message st =
     (case get_auth_key P hs (session_auth_key st) of
        (Inl e, a) \<Rightarrow> (Inl e, st\<lparr>session_auth_key := a\<rparr>)
      | (Inr (auth_key', auth_key_id'), a) \<Rightarrow>
          let st = st\<lparr>session_auth_key := a\<rparr> in
          (case message_inner_data_flat (server_salt a) (session_id a) message of
             None \<Rightarrow> (Inl Not_serializable, st)
           | Some message_inner_data \<Rightarrow>
               (case auth_key' of
                  None \<Rightarrow> (Inl Auth_key_missing, st)
                | Some auth_key' \<Rightarrow>
                    let padding = urandom source
                          (nat ((- (int (length message_inner_data) + 12)) mod 16 + 12));
                        msg_key = slice 8 24
                          (sha256 P (slice 88 (88 + 32) auth_key' @ message_inner_data @ padding));
                        aes = prepare_key P auth_key' msg_key True;
                        encrypted_message = ige_encrypt P aes (message_inner_data @ padding)
                    in (case auth_key_id' of
                          None \<Rightarrow> (Inl Auth_key_missing, st)
                        | Some auth_key_id' \<Rightarrow>
                            (Inr (encrypted_message_flat (from_bytes_little auth_key_id')
                                    msg_key encrypted_message), st)))))"

subsection \<open>The read path\<close>

text \<open>The fields of a parsed \<^verbatim>\<open>message_inner_data_from_server\<close>.\<close>

record inner_data_from_server =
  in_salt :: int
  in_session_id :: int
  in_message :: "bytes message"

text \<open>
  The two reads of \<^verbatim>\<open>self._scheme\<close> that \<^verbatim>\<open>MTProto.read\<close> calls. \<open>read_inner_data\<close>
  parses a \<^verbatim>\<open>message_inner_data_from_server\<close> from the front of the decrypted
  stream and tells how many bytes it consumed; \<open>read_from_string\<close> is the second
  decoding, of the body. \<open>None\<close> is a parse that raised.
\<close>

record 'v scheme =
  read_inner_data :: "bytes \<Rightarrow> (inner_data_from_server \<times> nat) option"
  read_from_string :: "bytes \<Rightarrow> 'v option"

text \<open>An inbound packet as the link delivers it: \<^verbatim>\<open>readn(8)\<close>, \<^verbatim>\<open>readn(16)\<close>, and
  the ciphertext that the decrypting stream reads.\<close>

record frame =
  frame_auth_key_id :: bytes
  frame_msg_key :: bytes
  frame_encrypted :: bytes

text \<open>
  \<^verbatim>\<open>MTProto.read\<close>. Modelled from the spec: the streaming decryptor
  (\<^verbatim>\<open>AesIgeAsyncStream\<close>) yields the plaintext of the packet; the bytes that the TL
  reader consumed went through the SHA256 accumulator, and what it did not
  consume is the remaining plain buffer. A salt that differs is only logged.
\<close>

definition read ::
  "primitives \<Rightarrow> 'v scheme \<Rightarrow> handshake \<Rightarrow> frame \<Rightarrow> int \<Rightarrow> nat \<Rightarrow> MTProto
     \<Rightarrow> (error + 'v message) \<times> MTProto" where
  "read P S hs fr now entropy st =
     (case get_auth_key P hs (session_auth_key st) of
        (Inl e, a) \<Rightarrow> (Inl e, st\<lparr>session_auth_key := a\<rparr>)
      | (Inr (None, auth_key_id'), a) \<Rightarrow> (Inl Auth_key_missing, st\<lparr>session_auth_key := a\<rparr>)
      | (Inr (Some auth_key', auth_key_id'), a) \<Rightarrow>
          let st = st\<lparr>session_auth_key := a\<rparr>;
              auth_key_part = slice (88 + 8) (88 + 8 + 32) auth_key';
              server_auth_key_id = frame_auth_key_id fr
          in if server_auth_key_id = [0x6c, 0xfe, 0xff, 0xff, 0x6c, 0xfe, 0xff, 0xff]
             then (Inl Corrupted_authorization, st)
             else if server_auth_key_id = [0x53, 0xfe, 0xff, 0xff, 0x53, 0xfe, 0xff, 0xff]
             then (Inl Too_many_requests, st)
             else if Some server_auth_key_id \<noteq> auth_key_id'
             then (Inl Unknown_auth_key_id, st)
             else
               let msg_key = frame_msg_key fr;
                   aes = prepare_key P auth_key' msg_key False;
                   plain = ige_decrypt P aes (frame_encrypted fr)
               in (case read_inner_data S plain of
                     None \<Rightarrow> (Inl Inner_data_unreadable, st)
                   | Some (message, consumed) \<Rightarrow>
                       let remaining_plain_buffer = drop consumed plain in
                       if \<not> (12 \<le> length remaining_plain_buffer
                              \<and> length remaining_plain_buffer < 1024)
                       then (Inl Wrong_padding_length, st)
                       else
                         let msg_key_computed = slice 8 24
                               (sha256 P (auth_key_part @ take consumed plain
                                          @ remaining_plain_buffer))
                         in if msg_key \<noteq> msg_key_computed then (Inl Unknown_msg_key, st)
                            else if Some (in_session_id message) \<noteq> session_id (session_auth_key st)
                            then (Inl Unknown_session_id, st)
                            else if msg_id (in_message message) mod 2 \<noteq> 1
                            then (Inl Need_odd_parity, st)
                            else if msg_id (in_message message) \<in> set (last_msg_ids st)
                            then (Inl Duplicated_message, st)
                            else
                              let st = st\<lparr>last_msg_ids :=
                                            deque_append (last_msg_ids st)
                                              (msg_id (in_message message))\<rparr>;
                                  (generated, st) = get_message_id now entropy st
                              in if \<not> (- (300 * 2 ^ 32) \<le> msg_id (in_message message) - generated
                                        \<and> msg_id (in_message message) - generated < 30 * 2 ^ 32)
                                 then (Inl Clock_not_synchronised, st)
                                 else
                                   (case read_from_string S (body (in_message message)) of
                                      None \<Rightarrow> (Inl Body_unreadable, st)
                                    | Some decoded \<Rightarrow>
                                        (Inr \<lparr>msg_id = msg_id (in_message message),
                                              seqno = seqno (in_message message),
                                              body = decoded\<rparr>, st))))"

subsection \<open>The life of an AuthKey\<close>



subsection \<open>The read path in two steps\<close>

text \<open>
  The part of \<^verbatim>\<open>read\<close> between \<^verbatim>\<open>readn(8)\<close> and the parity check: the checks that
  depend on the key, the session id and the frame only, and touch no state.
\<close>

definition frame_checks ::
  "primitives \<Rightarrow> 'v scheme \<Rightarrow> bytes \<Rightarrow> bytes option \<Rightarrow> int option \<Rightarrow> frame
     \<Rightarrow> error + inner_data_from_server" where
  "frame_checks P S k kid sid fr =
     (if frame_auth_key_id fr = [0x6c, 0xfe, 0xff, 0xff, 0x6c, 0xfe, 0xff, 0xff]
      then Inl Corrupted_authorization
      else if frame_auth_key_id fr = [0x53, 0xfe, 0xff, 0xff, 0x53, 0xfe, 0xff, 0xff]
      then Inl Too_many_requests
      else if Some (frame_auth_key_id fr) \<noteq> kid then Inl Unknown_auth_key_id
      else
        let plain = ige_decrypt P (prepare_key P k (frame_msg_key fr) False) (frame_encrypted fr)
        in (case read_inner_data S plain of
              None \<Rightarrow> Inl Inner_data_unreadable
            | Some (message, consumed) \<Rightarrow>
                if \<not> (12 \<le> length (drop consumed plain) \<and> length (drop consumed plain) < 1024)
                then Inl Wrong_padding_length
                else if frame_msg_key fr \<noteq>
                        slice 8 24 (sha256 P (slice 96 128 k @ take consumed plain
                                              @ drop consumed plain))
                then Inl Unknown_msg_key
                else if Some (in_session_id message) \<noteq> sid then Inl Unknown_session_id
                else if msg_id (in_message message) mod 2 \<noteq> 1 then Inl Need_odd_parity
                else Inr message))"

text \<open>The rest of \<^verbatim>\<open>read\<close>: the replay window, the clock and the decoding of the
  body.\<close>

definition accept_message ::
  "'v scheme \<Rightarrow> inner_data_from_server \<Rightarrow> int \<Rightarrow> nat \<Rightarrow> MTProto \<Rightarrow> (error + 'v message) \<times> MTProto" where
  "accept_message S message now e st =
     (if msg_id (in_message message) \<in> set (last_msg_ids st) then (Inl Duplicated_message, st)
      else
        let st2 = st\<lparr>last_msg_ids := deque_append (last_msg_ids st) (msg_id (in_message message))\<rparr>;
            generated = fst (get_message_id now e st2);
            st3 = snd (get_message_id now e st2)
        in if \<not> (- (300 * 2 ^ 32) \<le> msg_id (in_message message) - generated
                  \<and> msg_id (in_message message) - generated < 30 * 2 ^ 32)
           then (Inl Clock_not_synchronised, st3)
           else (case read_from_string S (body (in_message message)) of
                   None \<Rightarrow> (Inl Body_unreadable, st3)
                 | Some decoded \<Rightarrow>
                     (Inr \<lparr>msg_id = msg_id (in_message message),
                           seqno = seqno (in_message message), body = decoded\<rparr>, st3)))"

text \<open>The state after a sequence of reads, whatever they returned.\<close>

fun reads ::
  "primitives \<Rightarrow> 'v scheme \<Rightarrow> (handshake \<times> frame \<times> int \<times> nat) list \<Rightarrow> MTProto \<Rightarrow> MTProto" where
  "reads P S [] st = st"
| "reads P S ((hs, fr, now, e) # rest) st = reads P S rest (snd (read P S hs fr now e st))"

text \<open>The outcomes of a read that got as far as the clock check: a returned message,
  or one of the two errors raised from that check on.\<close>

definition reaches_clock_check :: "error + 'v message \<Rightarrow> bool" where
  "reaches_clock_check res =
     (case res of
        Inr m \<Rightarrow> True
      | Inl err \<Rightarrow> err = Clock_not_synchronised \<or> err = Body_unreadable)"

subsection \<open>Runs of the generator\<close>

text \<open>The ids of successive calls of \<^verbatim>\<open>_get_message_id\<close>, each with its clock
  reading and its entropy.\<close>

fun message_ids :: "(int \<times> nat) list \<Rightarrow> MTProto \<Rightarrow> int list" where
  "message_ids [] st = []"
| "message_ids ((now, entropy) # rest) st =
     (let (m, st') = get_message_id now entropy st in m # message_ids rest st')"

subsection \<open>A concrete instance\<close>

text \<open>
  Stand-ins with the shapes of the real primitives (a 20-byte and a 32-byte digest,
  a length-preserving cipher that is its own inverse, 256-byte big-endian keys), a
  handshake that no server answers, a key as a reload would set it up, and the
  message \<^verbatim>\<open>ping{ping_id=42}\<close> with \<^verbatim>\<open>seq_no=1\<close>. The properties below are
  run on them.
\<close>

definition example_primitives :: primitives where
  "example_primitives =
     \<lparr>sha1 = (\<lambda>x. take 20 (x @ replicate 20 0)),
      sha256 = (\<lambda>x. take 32 (x @ replicate 32 0)),
      ige_encrypt = (\<lambda>aes p. rev p),
      ige_decrypt = (\<lambda>aes c. rev c),
      to_bytes = (\<lambda>n. rev (int_to_le 256 n)),
      is_safe_dh_prime = (\<lambda>g p. True)\<rparr>"

definition example_handshake :: handshake where
  "example_handshake =
     \<lparr>rounds_1_2 = Inl ''no server'', new_nonce = [], server_nonce = [],
      b_entropy = 0, session_entropy = 0, round_3 = Inl ''no server''\<rparr>"

definition example_auth_key :: AuthKey where
  "example_auth_key =
     AuthKey_init (Some (replicate 256 7)) (Some (replicate 8 7)) (Some 99) (Some 5) None"

definition example_source :: "nat \<Rightarrow> byte" where
  "example_source i = word_of_nat i"

definition example_ping :: "bytes message" where
  "example_ping =
     \<lparr>msg_id = 4, seqno = 1, body = [0xec, 0x77, 0xbe, 0x7a, 42, 0, 0, 0, 0, 0, 0, 0]\<rparr>"

text \<open>A reader that takes the message id from the first byte of the plaintext and
  the body from the rest; a frame with 12 bytes of padding and one with 8.\<close>

definition example_scheme :: "bytes scheme" where
  "example_scheme =
     \<lparr>read_inner_data =
        (\<lambda>plain. case plain of
            [] \<Rightarrow> None
          | b # rest \<Rightarrow>
              Some (\<lparr>in_salt = 5, in_session_id = 99,
                     in_message = \<lparr>msg_id = uint b, seqno = 3, body = rest\<rparr>\<rparr>, 1)),
      read_from_string = (\<lambda>b. Some b)\<rparr>"

definition example_frame :: frame where
  "example_frame =
     \<lparr>frame_auth_key_id = replicate 8 7, frame_msg_key = replicate 16 7,
      frame_encrypted = rev (5 # replicate 12 0)\<rparr>"

definition example_short_frame :: frame where
  "example_short_frame =
     \<lparr>frame_auth_key_id = replicate 8 7, frame_msg_key = replicate 16 7,
      frame_encrypted = rev (5 # replicate 8 0)\<rparr>"

section \<open>Properties\<close>

subsection \<open>Auxiliary facts\<close>

lemma padded_length_int:
  fixes n :: int
  shows "n + ((- (n + 12)) mod 16 + 12) = ((n + 12 + 15) div 16) * 16"
proof -
  define q where "q = (- (n + 12)) div 16"
  define r where "r = (- (n + 12)) mod 16"
  have e: "- (n + 12) = 16 * q + r" unfolding q_def r_def by simp
  have r: "0 \<le> r" "r < 16" unfolding r_def by simp_all
  have "n + 12 + 15 = 16 * (- q) + (15 - r)" using e by linarith
  moreover have "0 \<le> 15 - r" "15 - r < 16" using r by simp_all
  ultimately have "(n + 12 + 15) div 16 = - q"
    by (metis div_mult_self2 div_pos_pos_trivial add.commute add_0 zero_neq_numeral mult.commute)
  then show ?thesis using e unfolding r_def [symmetric] by linarith
qed

lemma padded_length:
  fixes n :: nat
  shows "n + nat ((- (int n + 12)) mod 16 + 12) = ((n + 12 + 15) div 16) * 16"
proof -
  have r: "0 \<le> (- (int n + 12)) mod 16" by simp
  have "int (n + nat ((- (int n + 12)) mod 16 + 12)) = int n + ((- (int n + 12)) mod 16 + 12)"
    using r by simp
  also have "\<dots> = ((int n + 12 + 15) div 16) * 16" by (rule padded_length_int)
  also have "\<dots> = int (((n + 12 + 15) div 16) * 16)" by (simp add: zdiv_int)
  finally show ?thesis by (simp only: of_nat_eq_iff)
qed

lemma padding_length_bounds:
  fixes n :: nat
  defines "p \<equiv> nat ((- (int n + 12)) mod 16 + 12)"
  shows "int p = (- (int n + 12)) mod 16 + 12" and "12 \<le> p" and "p \<le> 27"
    and "(n + p) mod 16 = 0"
proof -
  have r: "0 \<le> (- (int n + 12)) mod 16" "(- (int n + 12)) mod 16 < 16" by simp_all
  show "int p = (- (int n + 12)) mod 16 + 12" using r unfolding p_def by simp
  show "12 \<le> p" using r unfolding p_def by linarith
  show "p \<le> 27" using r unfolding p_def by linarith
  have "n + p = ((n + 12 + 15) div 16) * 16" unfolding p_def by (rule padded_length)
  then show "(n + p) mod 16 = 0" by simp
qed

lemma length_urandom: "length (urandom source n) = n"
  by (simp add: urandom_def)

lemma length_int_to_le: "length (int_to_le n x) = n"
  by (simp add: int_to_le_def)

lemma length_message_inner_data_flat:
  "message_inner_data_flat s i m = Some inner \<Longrightarrow> length inner = 32 + length (body m)"
  by (auto simp: message_inner_data_flat_def length_int_to_le split: option.splits)

text \<open>What \<^verbatim>\<open>_get_auth_key\<close> returns is what the key then holds, and the key is set.\<close>

lemma get_auth_key_Inr:
  assumes "get_auth_key P hs a = (Inr (k, kid), a')"
  shows "auth_key a' = k \<and> auth_key_id a' = kid \<and> k \<noteq> None"
  using assms
  by (auto simp: get_auth_key_def create_auth_key_def Let_def
      split: option.splits sum.splits if_splits prod.splits; metis)

text \<open>The frame of a write that went through, in terms of the key it used.\<close>

lemma write_message_Inr:
  assumes "write_message P hs source m st = (Inr fr, st')"
  shows "\<exists>k kid inner padding msg_key.
           auth_key (session_auth_key st') = Some k
         \<and> auth_key_id (session_auth_key st') = Some kid
         \<and> message_inner_data_flat (server_salt (session_auth_key st'))
              (session_id (session_auth_key st')) m = Some inner
         \<and> padding = urandom source (nat ((- (int (length inner) + 12)) mod 16 + 12))
         \<and> msg_key = slice 8 24 (sha256 P (slice 88 120 k @ inner @ padding))
         \<and> fr = encrypted_message_flat (from_bytes_little kid) msg_key
                  (ige_encrypt P (prepare_key P k msg_key True) (inner @ padding))"
proof -
  obtain r a where g: "get_auth_key P hs (session_auth_key st) = (r, a)"
    by (cases "get_auth_key P hs (session_auth_key st)")
  from assms g obtain k kid where r: "r = Inr (k, kid)"
    by (cases r) (auto simp: write_message_def)
  from get_auth_key_Inr g r have a: "auth_key a = k" "auth_key_id a = kid" by auto
  from assms g r a show ?thesis
    by (auto simp: write_message_def Let_def split: option.splits)
qed

text \<open>With a key, its id, a salt and a session id in place, a write goes through
  and leaves the state as it was.\<close>

lemma write_message_returns:
  assumes "auth_key (session_auth_key st) = Some k"
    and "auth_key_id (session_auth_key st) = Some kid"
    and "server_salt (session_auth_key st) = Some s"
    and "session_id (session_auth_key st) = Some i"
  shows "\<exists>fr. write_message P hs source m st = (Inr fr, st)"
  using assms
  by (simp add: write_message_def get_auth_key_def message_inner_data_flat_def Let_def)

lemma write_message_length:
  assumes w: "write_message P hs source m st = (Inr fr, st')"
    and h: "\<forall>x. length (sha256 P x) = 32"
    and e: "\<forall>aes p. length (ige_encrypt P aes p) = length p"
  shows "length fr = 8 + 16 + ((32 + length (body m) + 12 + 15) div 16) * 16"
proof -
  from write_message_Inr [OF w] obtain k kid inner padding msg_key where
    i: "message_inner_data_flat (server_salt (session_auth_key st'))
              (session_id (session_auth_key st')) m = Some inner"
    and p: "padding = urandom source (nat ((- (int (length inner) + 12)) mod 16 + 12))"
    and mk: "msg_key = slice 8 24 (sha256 P (slice 88 120 k @ inner @ padding))"
    and fr: "fr = encrypted_message_flat (from_bytes_little kid) msg_key
                  (ige_encrypt P (prepare_key P k msg_key True) (inner @ padding))"
    by blast
  have li: "length inner = 32 + length (body m)"
    using i by (rule length_message_inner_data_flat)
  have lm: "length msg_key = 16" using h by (simp add: mk slice_def)
  have lp: "length inner + length padding = ((length inner + 12 + 15) div 16) * 16"
    unfolding p length_urandom by (rule padded_length)
  have "length fr = 8 + 16 + (length inner + length padding)"
    using e [rule_format] lm by (simp add: fr encrypted_message_flat_def length_int_to_le)
  then show ?thesis using lp li by simp
qed


lemma example_write_returns:
  "\<exists>fr. write_message example_primitives example_handshake example_source example_ping
          (MTProto_init example_auth_key) = (Inr fr, MTProto_init example_auth_key)"
  by (rule write_message_returns)
    (simp_all add: MTProto_init_def example_auth_key_def AuthKey_init_def)

lemma example_primitives_lengths:
  "\<forall>x. length (sha256 example_primitives x) = 32"
  "\<forall>aes p. length (ige_encrypt example_primitives aes p) = length p"
  "\<forall>x. length (sha1 example_primitives x) = 20"
  by (auto simp: example_primitives_def)

lemma get_message_id_step:
  assumes "last_message_id st mod 4 = 0"
  shows "fst (get_message_id now e st) mod 4 = 0"
    and "last_message_id st + 4 \<le> fst (get_message_id now e st)"
    and "last_message_id (snd (get_message_id now e st)) = fst (get_message_id now e st)"
  using assms by (auto simp: get_message_id_def Let_def)

lemma message_ids_aligned:
  "last_message_id st mod 4 = 0 \<Longrightarrow>
   (\<forall>m \<in> set (message_ids ins st). m mod 4 = 0 \<and> last_message_id st + 4 \<le> m)
   \<and> sorted_wrt (\<lambda>x y. x + 4 \<le> y) (message_ids ins st)"
proof (induction ins arbitrary: st)
  case Nil
  then show ?case by simp
next
  case (Cons p ins)
  obtain now e where p: "p = (now, e)" by (cases p)
  obtain m st' where g: "get_message_id now e st = (m, st')"
    by (cases "get_message_id now e st")
  from get_message_id_step [OF Cons.prems, of now e] g
  have m: "m mod 4 = 0" "last_message_id st + 4 \<le> m" "last_message_id st' = m" by simp_all
  from Cons.IH [of st'] m
  have ih: "\<forall>x \<in> set (message_ids ins st'). x mod 4 = 0 \<and> m + 4 \<le> x"
    "sorted_wrt (\<lambda>x y. x + 4 \<le> y) (message_ids ins st')" by simp_all
  show ?case using p g m ih by auto
qed

subsection \<open>Facts about the read path\<close>

lemma get_auth_key_present:
  "auth_key a = Some k \<Longrightarrow> get_auth_key P hs a = (Inr (Some k, auth_key_id a), a)"
  by (simp add: get_auth_key_def)

lemma read_after_get_auth_key:
  assumes "get_auth_key P hs (session_auth_key st) = (Inr (Some k, kid), a)"
  shows "read P S hs fr now e st = read P S hs' fr now e (st\<lparr>session_auth_key := a\<rparr>)"
proof -
  from get_auth_key_Inr [OF assms] have a: "auth_key a = Some k" "auth_key_id a = kid"
    by simp_all
  have g: "get_auth_key P hs' (session_auth_key (st\<lparr>session_auth_key := a\<rparr>))
             = (Inr (Some k, kid), a)"
    using a by (simp add: get_auth_key_present)
  show ?thesis
    unfolding read_def [of P S hs fr now e st]
      read_def [of P S hs' fr now e "st\<lparr>session_auth_key := a\<rparr>"] assms g
    by simp
qed

lemma read_handshake_failed:
  assumes "get_auth_key P hs (session_auth_key st) = (Inl err, a)"
  shows "read P S hs fr now e st = (Inl err, st\<lparr>session_auth_key := a\<rparr>)"
  by (simp add: read_def assms)

lemma get_auth_key_cases:
  obtains (failed) err a where "get_auth_key P hs a0 = (Inl err, a)"
  | (ready) k kid a where "get_auth_key P hs a0 = (Inr (Some k, kid), a)"
proof (cases "get_auth_key P hs a0")
  case (Pair r a)
  show ?thesis
  proof (cases r)
    case (Inl err)
    with Pair show ?thesis by (auto intro: failed)
  next
    case (Inr p)
    obtain ko kid where p: "p = (ko, kid)" by (cases p)
    from get_auth_key_Inr [of P hs a0 ko kid a] Pair Inr p obtain k where "ko = Some k"
      by auto
    with Pair Inr p show ?thesis by (auto intro: ready)
  qed
qed



lemma read_ready:
  assumes "get_auth_key P hs (session_auth_key st) = (Inr (Some k, kid), a)"
  shows "read P S hs fr now e st =
           (case frame_checks P S k kid (session_id a) fr of
              Inl err \<Rightarrow> (Inl err, st\<lparr>session_auth_key := a\<rparr>)
            | Inr message \<Rightarrow> accept_message S message now e (st\<lparr>session_auth_key := a\<rparr>))"
  unfolding read_def assms frame_checks_def accept_message_def
  by (simp add: Let_def split: option.split prod.split)


lemma get_message_id_fst:
  "fst (get_message_id now e st) =
     (if (now OR randbits 12 e) * 4 \<le> last_message_id st
      then last_message_id st + 4 else (now OR randbits 12 e) * 4)"
  by (simp add: get_message_id_def Let_def)

lemma get_message_id_snd:
  "snd (get_message_id now e st) = st\<lparr>last_message_id := fst (get_message_id now e st)\<rparr>"
  by (simp add: get_message_id_def Let_def)

lemma get_message_id_greater: "last_message_id st < fst (get_message_id now e st)"
  by (simp add: get_message_id_fst)

lemma accept_message_cases [consumes 1, case_names duplicate appended]:
  assumes "accept_message S message now e st = (res, st')"
  obtains (duplicate) "msg_id (in_message message) \<in> set (last_msg_ids st)"
      "res = Inl Duplicated_message" "st' = st"
  | (appended) "msg_id (in_message message) \<notin> set (last_msg_ids st)"
      "st' = st\<lparr>last_msg_ids := deque_append (last_msg_ids st) (msg_id (in_message message)),
                 last_message_id := fst (get_message_id now e st)\<rparr>"
      "reaches_clock_check res"
      "\<And>m. res = Inr m \<Longrightarrow> msg_id m = msg_id (in_message message)"
proof (cases "msg_id (in_message message) \<in> set (last_msg_ids st)")
  case True
  with assms show ?thesis by (auto simp: accept_message_def intro: duplicate)
next
  case False
  have f: "fst (get_message_id now e
        (st\<lparr>last_msg_ids := deque_append (last_msg_ids st) (msg_id (in_message message))\<rparr>))
      = fst (get_message_id now e st)"
    by (simp add: get_message_id_fst)
  from assms False have
    "st' = st\<lparr>last_msg_ids := deque_append (last_msg_ids st) (msg_id (in_message message)),
                 last_message_id := fst (get_message_id now e st)\<rparr>"
    "reaches_clock_check res"
    "\<And>m. res = Inr m \<Longrightarrow> msg_id m = msg_id (in_message message)"
    unfolding accept_message_def Let_def get_message_id_snd f
    by (auto simp: reaches_clock_check_def split: if_splits option.splits)
  with False show ?thesis by (rule appended)
qed

lemma frame_checks_error:
  "frame_checks P S k kid sid fr = Inl err \<Longrightarrow>
     err \<noteq> Duplicated_message \<and> err \<noteq> Clock_not_synchronised \<and> err \<noteq> Body_unreadable"
  by (auto simp: frame_checks_def Let_def split: if_splits option.splits prod.splits)

lemma get_auth_key_error:
  "get_auth_key P hs a0 = (Inl err, a) \<Longrightarrow>
     err \<noteq> Wrong_padding_length \<and> err \<noteq> Duplicated_message
     \<and> err \<noteq> Clock_not_synchronised \<and> err \<noteq> Body_unreadable"
  by (auto simp: get_auth_key_def create_auth_key_def Let_def
      split: option.splits sum.splits if_splits prod.splits)

lemma get_auth_key_error_key:
  "get_auth_key P hs a0 = (Inl err, a) \<Longrightarrow> auth_key a0 = None"
  by (auto simp: get_auth_key_def split: option.splits)


lemma read_cases [consumes 1, case_names handshake_failed rejected accepted]:
  assumes "read P S hs fr now e st = (res, st')"
  obtains (handshake_failed) err a where
      "get_auth_key P hs (session_auth_key st) = (Inl err, a)"
      "res = Inl err" "st' = st\<lparr>session_auth_key := a\<rparr>"
  | (rejected) k kid a err where
      "get_auth_key P hs (session_auth_key st) = (Inr (Some k, kid), a)"
      "frame_checks P S k kid (session_id a) fr = Inl err"
      "res = Inl err" "st' = st\<lparr>session_auth_key := a\<rparr>"
  | (accepted) k kid a message where
      "get_auth_key P hs (session_auth_key st) = (Inr (Some k, kid), a)"
      "frame_checks P S k kid (session_id a) fr = Inr message"
      "accept_message S message now e (st\<lparr>session_auth_key := a\<rparr>) = (res, st')"
proof (cases rule: get_auth_key_cases [of P hs "session_auth_key st"])
  case (failed err a)
  from assms read_handshake_failed [OF failed, of S fr now e]
  have "res = Inl err" "st' = st\<lparr>session_auth_key := a\<rparr>" by simp_all
  with failed show ?thesis by (rule handshake_failed)
next
  case (ready k kid a)
  note r = read_ready [OF ready, of S fr now e]
  show ?thesis
  proof (cases "frame_checks P S k kid (session_id a) fr")
    case (Inl err)
    from assms r Inl have "res = Inl err" "st' = st\<lparr>session_auth_key := a\<rparr>" by simp_all
    with ready Inl show ?thesis by (rule rejected)
  next
    case (Inr message)
    from assms r Inr
    have "accept_message S message now e (st\<lparr>session_auth_key := a\<rparr>) = (res, st')" by simp
    with ready Inr show ?thesis by (rule accepted)
  qed
qed

lemma read_clock:
  assumes "read P S hs fr now e st = (res, st')"
  shows "if reaches_clock_check res
         then last_message_id st' = fst (get_message_id now e st)
         else last_message_id st' = last_message_id st"
  using assms
proof (cases rule: read_cases)
  case (handshake_failed err a)
  with get_auth_key_error [OF handshake_failed(1)] show ?thesis
    by (simp add: reaches_clock_check_def)
next
  case (rejected k kid a err)
  with frame_checks_error [OF rejected(2)] show ?thesis
    by (simp add: reaches_clock_check_def)
next
  case (accepted k kid a message)
  from accepted(3) show ?thesis
  proof (cases rule: accept_message_cases)
    case duplicate
    then show ?thesis by (simp add: reaches_clock_check_def)
  next
    case appended
    then show ?thesis by (simp add: get_message_id_fst)
  qed
qed

lemma frame_checks_wrong_padding:
  "(frame_checks P S k kid sid fr = Inl Wrong_padding_length) =
     (frame_auth_key_id fr \<noteq> [0x6c, 0xfe, 0xff, 0xff, 0x6c, 0xfe, 0xff, 0xff]
      \<and> frame_auth_key_id fr \<noteq> [0x53, 0xfe, 0xff, 0xff, 0x53, 0xfe, 0xff, 0xff]
      \<and> kid = Some (frame_auth_key_id fr)
      \<and> (\<exists>message consumed.
            read_inner_data S
              (ige_decrypt P (prepare_key P k (frame_msg_key fr) False) (frame_encrypted fr))
              = Some (message, consumed)
          \<and> \<not> (12 \<le> length (drop consumed
                    (ige_decrypt P (prepare_key P k (frame_msg_key fr) False)
                       (frame_encrypted fr)))
               \<and> length (drop consumed
                    (ige_decrypt P (prepare_key P k (frame_msg_key fr) False)
                       (frame_encrypted fr))) < 1024)))"
  by (auto simp: frame_checks_def Let_def split: option.splits prod.splits)

lemma read_unchanged_with_key:
  assumes "read P S hs fr now e st = (res, st')"
    and "auth_key (session_auth_key st) = Some k"
  shows "session_auth_key st' = session_auth_key st"
    and "\<not> reaches_clock_check res \<Longrightarrow> res \<noteq> Inl Duplicated_message \<Longrightarrow> st' = st"
    and "res = Inl Duplicated_message \<Longrightarrow> st' = st"
proof -
  note g = get_auth_key_present [OF assms(2), of P hs]
  from assms(1) have "session_auth_key st' = session_auth_key st
    \<and> (\<not> reaches_clock_check res \<longrightarrow> res \<noteq> Inl Duplicated_message \<longrightarrow> st' = st)
    \<and> (res = Inl Duplicated_message \<longrightarrow> st' = st)"
  proof (cases rule: read_cases)
    case (handshake_failed err a)
    with g show ?thesis by simp
  next
    case (rejected k' kid a err)
    with g frame_checks_error [OF rejected(2)] show ?thesis by simp
  next
    case (accepted k' kid a message)
    with g have a: "a = session_auth_key st" by simp
    from accepted(3) show ?thesis
    proof (cases rule: accept_message_cases)
      case duplicate
      then show ?thesis by (simp add: a)
    next
      case appended
      then show ?thesis by (auto simp: a reaches_clock_check_def)
    qed
  qed
  then show "session_auth_key st' = session_auth_key st"
    and "\<not> reaches_clock_check res \<Longrightarrow> res \<noteq> Inl Duplicated_message \<Longrightarrow> st' = st"
    and "res = Inl Duplicated_message \<Longrightarrow> st' = st"
    by simp_all
qed

lemma read_window:
  assumes "read P S hs fr now e st = (res, st')"
  shows "last_msg_ids st' = last_msg_ids st
       \<or> (\<exists>x. last_msg_ids st' = deque_append (last_msg_ids st) x)"
  using assms
proof (cases rule: read_cases)
  case (handshake_failed err a)
  then show ?thesis by simp
next
  case (rejected k kid a err)
  then show ?thesis by simp
next
  case (accepted k kid a message)
  from accepted(3) show ?thesis
    by (cases rule: accept_message_cases) auto
qed

lemma example_key_ready:
  "get_auth_key example_primitives hs (session_auth_key (MTProto_init example_auth_key))
     = (Inr (Some (replicate 256 7), Some (replicate 8 7)), example_auth_key)"
  by (simp add: get_auth_key_def MTProto_init_def example_auth_key_def AuthKey_init_def)

lemma replicate_8_7: "replicate 8 (7 :: byte) = [7, 7, 7, 7, 7, 7, 7, 7]"
  by (simp add: numeral_eq_Suc)

lemma example_frame_checks:
  "frame_checks example_primitives example_scheme (replicate 256 7) (Some (replicate 8 7))
     (session_id example_auth_key) example_frame
   = Inr \<lparr>in_salt = 5, in_session_id = 99,
          in_message = \<lparr>msg_id = 5, seqno = 3, body = replicate 12 0\<rparr>\<rparr>"
  by (simp add: frame_checks_def example_frame_def example_primitives_def example_scheme_def
      prepare_key_def slice_def Let_def example_auth_key_def AuthKey_init_def replicate_8_7)

lemma example_read:
  "read example_primitives example_scheme example_handshake example_frame 0 0
     (MTProto_init example_auth_key)
   = (Inr \<lparr>msg_id = 5, seqno = 3, body = replicate 12 0\<rparr>,
      \<lparr>last_message_id = 4, session_auth_key = example_auth_key, last_msg_ids = [5]\<rparr>)"
  unfolding read_ready [OF example_key_ready] example_frame_checks
  by (simp add: accept_message_def MTProto_init_def deque_append_def get_message_id_def
      randbits_def Let_def example_scheme_def)

lemma example_short_read:
  "read example_primitives example_scheme example_handshake example_short_frame 0 0
     (MTProto_init example_auth_key)
   = (Inl Wrong_padding_length, MTProto_init example_auth_key)"
  unfolding read_ready [OF example_key_ready]
  by (simp add: frame_checks_def example_short_frame_def example_primitives_def
      example_scheme_def prepare_key_def slice_def Let_def example_auth_key_def AuthKey_init_def
      replicate_8_7 MTProto_init_def)

lemma rev_deque_append: "rev (deque_append w x) = take 64 (x # rev w)"
proof -
  have "rev (drop (length (w @ [x]) - 64) (w @ [x]))
      = take (length (w @ [x]) - (length (w @ [x]) - 64)) (rev (w @ [x]))"
    by (rule rev_drop)
  also have "\<dots> = take 64 (rev (w @ [x]))"
    by (cases "64 \<le> length (w @ [x])") simp_all
  finally show ?thesis by (simp add: deque_append_def Let_def)
qed

lemma length_deque_append: "length (deque_append w x) \<le> 64"
  by (simp add: deque_append_def Let_def)

lemma recent_after_append:
  assumes "x \<in> set (take n (rev w))" and "n < 64"
  shows "x \<in> set (take (Suc n) (rev (deque_append w y)))"
proof -
  from assms(2) have "take (Suc n) (take 64 (y # rev w)) = y # take n (rev w)"
    by (simp add: min_def)
  with assms(1) show ?thesis by (simp add: rev_deque_append)
qed

lemma recent_mono:
  assumes "x \<in> set (take n xs)"
  shows "x \<in> set (take (Suc n) xs)"
  using assms set_take_subset_set_take [of n "Suc n" xs] by auto

lemma newest_is_recent: "x \<in> set (take (Suc 0) (rev (deque_append w x)))"
  by (simp add: rev_deque_append)

text \<open>One more read keeps the key and keeps a recent id recent.\<close>

lemma read_keeps_recent:
  assumes k: "auth_key (session_auth_key st) = Some k"
    and x: "x \<in> set (take n (rev (last_msg_ids st)))"
    and n: "n < 64"
  shows "session_auth_key (snd (read P S hs fr now e st)) = session_auth_key st
       \<and> x \<in> set (take (Suc n) (rev (last_msg_ids (snd (read P S hs fr now e st)))))"
proof -
  obtain res st' where r: "read P S hs fr now e st = (res, st')"
    by (cases "read P S hs fr now e st")
  from read_window [OF r] have "x \<in> set (take (Suc n) (rev (last_msg_ids st')))"
  proof
    assume "last_msg_ids st' = last_msg_ids st"
    with x show ?thesis by (simp only: recent_mono)
  next
    assume "\<exists>y. last_msg_ids st' = deque_append (last_msg_ids st) y"
    then obtain y where "last_msg_ids st' = deque_append (last_msg_ids st) y" ..
    with recent_after_append [OF x n, of y] show ?thesis by simp
  qed
  with read_unchanged_with_key(1) [OF r k] r show ?thesis by simp
qed

lemma reads_keep_recent:
  assumes "auth_key (session_auth_key st) = Some k"
    and "x \<in> set (take n (rev (last_msg_ids st)))"
    and "n + length others \<le> 64"
  shows "session_auth_key (reads P S others st) = session_auth_key st
       \<and> x \<in> set (last_msg_ids (reads P S others st))"
  using assms
proof (induction others arbitrary: st n)
  case Nil
  from Nil(2) have "x \<in> set (rev (last_msg_ids st))" by (rule in_set_takeD)
  then show ?case by simp
next
  case (Cons o1 others)
  obtain hs fr now e where o1: "o1 = (hs, fr, now, e)" by (cases o1)
  let ?st = "snd (read P S hs fr now e st)"
  from Cons.prems(3) have n: "n < 64" by simp
  from read_keeps_recent [OF Cons.prems(1,2) n, of P S hs fr now e]
  have s: "session_auth_key ?st = session_auth_key st"
    and x: "x \<in> set (take (Suc n) (rev (last_msg_ids ?st)))" by simp_all
  from s Cons.prems(1) have k: "auth_key (session_auth_key ?st) = Some k" by simp
  from Cons.prems(3) have "Suc n + length others \<le> 64" by simp
  from Cons.IH [OF k x this] s show ?case by (simp add: o1)
qed

lemma read_window_length:
  assumes "length (last_msg_ids st) \<le> 64"
  shows "length (last_msg_ids (snd (read P S hs fr now e st))) \<le> 64"
proof -
  obtain res st' where r: "read P S hs fr now e st = (res, st')"
    by (cases "read P S hs fr now e st")
  from read_window [OF r] assms have "length (last_msg_ids st') \<le> 64"
    by (auto simp: length_deque_append)
  with r show ?thesis by simp
qed

lemma reads_window_length:
  "length (last_msg_ids st) \<le> 64 \<Longrightarrow> length (last_msg_ids (reads P S others st)) \<le> 64"
proof (induction others arbitrary: st)
  case Nil
  then show ?case by simp
next
  case (Cons o1 others)
  obtain hs fr now e where o1: "o1 = (hs, fr, now, e)" by (cases o1)
  from Cons.IH [OF read_window_length [OF Cons.prems, of P S hs fr now e]]
  show ?case by (simp add: o1)
qed


text \<open>The last message id of a connection starts at 0 and stays a multiple of 4
  through every operation.\<close>

lemma clock_aligned_init: "last_message_id (MTProto_init a) mod 4 = 0"
  by (simp add: MTProto_init_def)

lemma clock_aligned_box_message:
  assumes "last_message_id st mod 4 = 0"
  shows "last_message_id (snd (box_message sq bd now e st)) mod 4 = 0"
proof -
  have "snd (box_message sq bd now e st) = snd (get_message_id now e st)"
    by (simp add: box_message_def split: prod.split)
  with get_message_id_step(1,3) [OF assms, of now e] show ?thesis by simp
qed

lemma clock_aligned_read:
  assumes "last_message_id st mod 4 = 0"
  shows "last_message_id (snd (read P S hs fr now e st)) mod 4 = 0"
proof -
  obtain res st' where r: "read P S hs fr now e st = (res, st')"
    by (cases "read P S hs fr now e st")
  from read_clock [OF r] assms get_message_id_step(1) [OF assms, of now e]
  have "last_message_id st' mod 4 = 0"
    by (cases "reaches_clock_check res") simp_all
  with r show ?thesis by simp
qed

lemma clock_kept_by_write_message:
  "last_message_id (snd (write_message P hs source m st)) = last_message_id st"
  by (simp add: write_message_def Let_def split: prod.split sum.split option.split)

subsection \<open>Facts about the key id\<close>







subsection \<open>The write path\<close>



text \<open>
  C3. For every outbound message written by \<^verbatim>\<open>MTProto.write\<close>, the length \<open>p\<close> of
  the generated padding is \<^verbatim>\<open>((-(len(inner)+12)) mod 16) + 12\<close>; hence \<open>p\<close> lies in
  \<open>[12, 27]\<close> and \<^verbatim>\<open>len(inner) + p\<close>, the length of the plaintext that is encrypted,
  is a multiple of 16.
\<close>

theorem write_message_padding_length:
  assumes "write_message P hs source m st = (Inr fr, st')"
  shows "\<exists>k kid inner padding.
           auth_key (session_auth_key st') = Some k
         \<and> auth_key_id (session_auth_key st') = Some kid
         \<and> message_inner_data_flat (server_salt (session_auth_key st'))
              (session_id (session_auth_key st')) m = Some inner
         \<and> padding = urandom source (length padding)
         \<and> fr = encrypted_message_flat (from_bytes_little kid)
                  (slice 8 24 (sha256 P (slice 88 120 k @ inner @ padding)))
                  (ige_encrypt P
                     (prepare_key P k
                        (slice 8 24 (sha256 P (slice 88 120 k @ inner @ padding))) True)
                     (inner @ padding))
         \<and> int (length padding) = (- (int (length inner) + 12)) mod 16 + 12
         \<and> 12 \<le> length padding \<and> length padding \<le> 27
         \<and> (length inner + length padding) mod 16 = 0"
proof -
  from write_message_Inr [OF assms] obtain k kid inner padding msg_key where
    f: "auth_key (session_auth_key st') = Some k"
       "auth_key_id (session_auth_key st') = Some kid"
       "message_inner_data_flat (server_salt (session_auth_key st'))
              (session_id (session_auth_key st')) m = Some inner"
       "fr = encrypted_message_flat (from_bytes_little kid) msg_key
                  (ige_encrypt P (prepare_key P k msg_key True) (inner @ padding))"
    and mk: "msg_key = slice 8 24 (sha256 P (slice 88 120 k @ inner @ padding))"
    and p: "padding = urandom source (nat ((- (int (length inner) + 12)) mod 16 + 12))"
    by blast
  have l: "length padding = nat ((- (int (length inner) + 12)) mod 16 + 12)"
    by (subst p) (rule length_urandom)
  have pp: "padding = urandom source (length padding)"
    by (subst l) (rule p)
  have b: "int (length padding) = (- (int (length inner) + 12)) mod 16 + 12"
    "12 \<le> length padding" "length padding \<le> 27"
    "(length inner + length padding) mod 16 = 0"
    unfolding l by (rule padding_length_bounds)+
  show ?thesis
  proof (intro exI conjI)
    show "auth_key (session_auth_key st') = Some k" by (rule f(1))
    show "auth_key_id (session_auth_key st') = Some kid" by (rule f(2))
    show "message_inner_data_flat (server_salt (session_auth_key st'))
              (session_id (session_auth_key st')) m = Some inner" by (rule f(3))
    show "padding = urandom source (length padding)" by (rule pp)
    show "fr = encrypted_message_flat (from_bytes_little kid)
                  (slice 8 24 (sha256 P (slice 88 120 k @ inner @ padding)))
                  (ige_encrypt P
                     (prepare_key P k
                        (slice 8 24 (sha256 P (slice 88 120 k @ inner @ padding))) True)
                     (inner @ padding))"
      using f(4) unfolding mk .
    show "int (length padding) = (- (int (length inner) + 12)) mod 16 + 12" by (rule b(1))
    show "12 \<le> length padding" by (rule b(2))
    show "length padding \<le> 27" by (rule b(3))
    show "(length inner + length padding) mod 16 = 0" by (rule b(4))
  qed
qed

theorem write_message_padding_length_witness:
  "\<exists>fr. write_message example_primitives example_handshake example_source example_ping
          (MTProto_init example_auth_key) = (Inr fr, MTProto_init example_auth_key)
     \<and> (\<exists>k kid inner padding.
           auth_key (session_auth_key (MTProto_init example_auth_key)) = Some k
         \<and> auth_key_id (session_auth_key (MTProto_init example_auth_key)) = Some kid
         \<and> message_inner_data_flat
              (server_salt (session_auth_key (MTProto_init example_auth_key)))
              (session_id (session_auth_key (MTProto_init example_auth_key)))
              example_ping = Some inner
         \<and> padding = urandom example_source (length padding)
         \<and> fr = encrypted_message_flat (from_bytes_little kid)
                  (slice 8 24 (sha256 example_primitives (slice 88 120 k @ inner @ padding)))
                  (ige_encrypt example_primitives
                     (prepare_key example_primitives k
                        (slice 8 24
                           (sha256 example_primitives (slice 88 120 k @ inner @ padding)))
                        True)
                     (inner @ padding))
         \<and> int (length padding) = (- (int (length inner) + 12)) mod 16 + 12
         \<and> 12 \<le> length padding \<and> length padding \<le> 27
         \<and> (length inner + length padding) mod 16 = 0)"
proof -
  from example_write_returns obtain fr where
    w: "write_message example_primitives example_handshake example_source example_ping
          (MTProto_init example_auth_key) = (Inr fr, MTProto_init example_auth_key)" ..
  show ?thesis
    by (rule exI [of _ fr], rule conjI, rule w, rule write_message_padding_length [OF w])
qed

text \<open>
  C7, as the code has it. For every message written by \<^verbatim>\<open>MTProto.write\<close> whose
  TL body serializes to \<^verbatim>\<open>len(body)\<close> bytes, the emitted frame has
  \<^verbatim>\<open>8 + 16 + ceil((32 + len(body) + 12)/16)*16\<close> bytes: the key id, the \<^verbatim>\<open>msg_key\<close>,
  and the ciphertext of the inner frame with its padding of at least 12 bytes.
  SHA256 digests have 32 bytes and AES-IGE keeps the length of its input.
\<close>

theorem write_message_frame_length:
  assumes "write_message P hs source m st = (Inr fr, st')"
    and "\<forall>x. length (sha256 P x) = 32"
    and "\<forall>aes p. length (ige_encrypt P aes p) = length p"
  shows "length fr = 8 + 16 + ((32 + length (body m) + 12 + 15) div 16) * 16"
  using assms by (rule write_message_length)

theorem write_message_frame_length_witness:
  "\<exists>fr. write_message example_primitives example_handshake example_source example_ping
          (MTProto_init example_auth_key) = (Inr fr, MTProto_init example_auth_key)
        \<and> length fr = 8 + 16 + ((32 + length (body example_ping) + 12 + 15) div 16) * 16"
proof -
  from example_write_returns obtain fr where
    w: "write_message example_primitives example_handshake example_source example_ping
          (MTProto_init example_auth_key) = (Inr fr, MTProto_init example_auth_key)" ..
  from write_message_frame_length [OF w example_primitives_lengths(1,2)] w
  show ?thesis by blast
qed

text \<open>The frame of \<^verbatim>\<open>ping{ping_id=42}\<close>, a body of 12 bytes, has 88 bytes, where
  \<^verbatim>\<open>8 + 16 + ceil((32 + len(body))/16)*16\<close> is 72.\<close>

theorem write_message_frame_length_counterexample:
  "map_sum id length (fst (write_message example_primitives example_handshake example_source
        example_ping (MTProto_init example_auth_key))) = Inr 88
   \<and> map_sum id length (fst (write_message example_primitives example_handshake example_source
        example_ping (MTProto_init example_auth_key)))
      \<noteq> Inr (8 + 16 + ((32 + length (body example_ping) + 15) div 16) * 16)"
proof -
  from example_write_returns obtain fr where
    w: "write_message example_primitives example_handshake example_source example_ping
          (MTProto_init example_auth_key) = (Inr fr, MTProto_init example_auth_key)" ..
  from write_message_length [OF w example_primitives_lengths(1,2)]
  have "length fr = 88" by (simp add: example_ping_def)
  then show ?thesis using w by (simp add: example_ping_def)
qed

subsection \<open>The read path\<close>

text \<open>
  C5. On the encrypted read path, after the TL body is parsed, the remaining plain
  buffer must have a length in \<open>[12, 1024)\<close>: the error "wrong padding length" is
  raised exactly for a frame that gets through the key-id checks and the parse and
  leaves a buffer of any other length (8 bytes, say). When that error is raised, no
  state of the connection has been mutated: the replay window and the clock are as
  before, and so is the whole state when the key was agreed before the read.
\<close>

theorem read_wrong_padding_length:
  assumes "read P S hs fr now e st = (res, st')"
  shows "(res = Inl Wrong_padding_length) =
           (\<exists>k a message consumed.
              get_auth_key P hs (session_auth_key st)
                = (Inr (Some k, Some (frame_auth_key_id fr)), a)
            \<and> frame_auth_key_id fr \<noteq> [0x6c, 0xfe, 0xff, 0xff, 0x6c, 0xfe, 0xff, 0xff]
            \<and> frame_auth_key_id fr \<noteq> [0x53, 0xfe, 0xff, 0xff, 0x53, 0xfe, 0xff, 0xff]
            \<and> read_inner_data S
                 (ige_decrypt P (prepare_key P k (frame_msg_key fr) False) (frame_encrypted fr))
                 = Some (message, consumed)
            \<and> \<not> (12 \<le> length (drop consumed
                      (ige_decrypt P (prepare_key P k (frame_msg_key fr) False)
                         (frame_encrypted fr)))
                 \<and> length (drop consumed
                      (ige_decrypt P (prepare_key P k (frame_msg_key fr) False)
                         (frame_encrypted fr))) < 1024))
       \<and> (res = Inl Wrong_padding_length \<longrightarrow>
            last_msg_ids st' = last_msg_ids st
          \<and> last_message_id st' = last_message_id st
          \<and> (auth_key (session_auth_key st) \<noteq> None \<longrightarrow> st' = st))"
    (is "(_ = (\<exists>k a message consumed. ?G k a \<and> ?R k message consumed)) \<and> ?U")
  using assms
proof (cases rule: read_cases)
  case (handshake_failed err a)
  with get_auth_key_error [OF handshake_failed(1)] show ?thesis by simp
next
  case (rejected k kid a err)
  have u: ?U
  proof (intro impI conjI)
    show "last_msg_ids st' = last_msg_ids st" "last_message_id st' = last_message_id st"
      using rejected(4) by simp_all
    assume "auth_key (session_auth_key st) \<noteq> None"
    then obtain k0 where "auth_key (session_auth_key st) = Some k0" by auto
    from get_auth_key_present [OF this, of P hs] rejected(1,4) show "st' = st" by simp
  qed
  have eq: "(err = Wrong_padding_length) =
      (kid = Some (frame_auth_key_id fr) \<and> (\<exists>message consumed. ?R k message consumed))"
    using frame_checks_wrong_padding [of P S k kid "session_id a" fr]
    unfolding rejected(2) by (simp only: sum.inject) blast
  have "(res = Inl Wrong_padding_length) =
      (\<exists>k a message consumed. ?G k a \<and> ?R k message consumed)"
  proof
    assume "res = Inl Wrong_padding_length"
    with rejected(3) eq obtain message consumed where
      "kid = Some (frame_auth_key_id fr)" "?R k message consumed" by auto
    with rejected(1) have "?G k a \<and> ?R k message consumed" by simp
    then show "\<exists>k a message consumed. ?G k a \<and> ?R k message consumed" by blast
  next
    assume "\<exists>k a message consumed. ?G k a \<and> ?R k message consumed"
    then obtain k' a' message consumed where "?G k' a'" "?R k' message consumed" by blast
    with rejected(1) have "kid = Some (frame_auth_key_id fr)" "?R k message consumed"
      by simp_all
    with eq rejected(3) show "res = Inl Wrong_padding_length" by blast
  qed
  from this u show ?thesis by (rule conjI)
next
  case (accepted k kid a message)
  from accepted(3) have n: "res \<noteq> Inl Wrong_padding_length"
    by (cases rule: accept_message_cases) (auto simp: reaches_clock_check_def)
  have "\<not> (kid = Some (frame_auth_key_id fr) \<and> (\<exists>message consumed. ?R k message consumed))"
    using frame_checks_wrong_padding [of P S k kid "session_id a" fr]
    unfolding accepted(2) by (simp only: sum.distinct) blast
  with accepted(1) have "\<not> (\<exists>k a message consumed. ?G k a \<and> ?R k message consumed)"
    by auto
  with n show ?thesis by simp
qed

theorem read_wrong_padding_length_witness:
  "read example_primitives example_scheme example_handshake example_short_frame 0 0
     (MTProto_init example_auth_key)
     = (Inl Wrong_padding_length, MTProto_init example_auth_key)
   \<and> (\<exists>k a message consumed.
         get_auth_key example_primitives example_handshake
           (session_auth_key (MTProto_init example_auth_key))
           = (Inr (Some k, Some (frame_auth_key_id example_short_frame)), a)
       \<and> frame_auth_key_id example_short_frame
           \<noteq> [0x6c, 0xfe, 0xff, 0xff, 0x6c, 0xfe, 0xff, 0xff]
       \<and> frame_auth_key_id example_short_frame
           \<noteq> [0x53, 0xfe, 0xff, 0xff, 0x53, 0xfe, 0xff, 0xff]
       \<and> read_inner_data example_scheme
            (ige_decrypt example_primitives
               (prepare_key example_primitives k (frame_msg_key example_short_frame) False)
               (frame_encrypted example_short_frame))
            = Some (message, consumed)
       \<and> \<not> (12 \<le> length (drop consumed
                 (ige_decrypt example_primitives
                    (prepare_key example_primitives k (frame_msg_key example_short_frame) False)
                    (frame_encrypted example_short_frame)))
            \<and> length (drop consumed
                 (ige_decrypt example_primitives
                    (prepare_key example_primitives k (frame_msg_key example_short_frame) False)
                    (frame_encrypted example_short_frame))) < 1024))"
proof -
  note t = read_wrong_padding_length [OF example_short_read, THEN conjunct1]
  have "Inl Wrong_padding_length = (Inl Wrong_padding_length :: error + bytes message)" ..
  from example_short_read this [unfolded t] show ?thesis by (rule conjI)
qed

text \<open>
  C4. If the same valid encrypted server frame is submitted to \<^verbatim>\<open>MTProto.read\<close>
  twice on one connection, with fewer than 64 other frames read in between, the
  first read succeeds and appends its \<^verbatim>\<open>msg_id\<close> to the replay window, and the
  second read fails with the "duplicated message" error (and changes nothing); the
  window holds at most 64 ids, the most recent ones.
\<close>

theorem replay_rejected:
  assumes r: "read P S hs fr now e st = (Inr m, st1)"
    and n: "length others < 64"
  shows "last_msg_ids st1 = deque_append (last_msg_ids st) (msg_id m)
       \<and> length (last_msg_ids st1) \<le> 64
       \<and> length (last_msg_ids (reads P S others st1)) \<le> 64
       \<and> read P S hs' fr now' e' (reads P S others st1)
           = (Inl Duplicated_message, reads P S others st1)"
  using r
proof (cases rule: read_cases)
  case (handshake_failed err a)
  then show ?thesis by simp
next
  case (rejected k kid a err)
  then show ?thesis by simp
next
  case (accepted k kid a message)
  let ?x = "msg_id (in_message message)"
  let ?st2 = "reads P S others st1"
  from get_auth_key_Inr [OF accepted(1)]
  have a: "auth_key a = Some k" "auth_key_id a = kid" by simp_all
  from accepted(3) have
    w: "last_msg_ids st1 = deque_append (last_msg_ids st) ?x"
    and s: "session_auth_key st1 = a"
    and m: "msg_id m = ?x"
    by (cases rule: accept_message_cases; simp)+
  have l1: "length (last_msg_ids st1) \<le> 64"
    unfolding w by (rule length_deque_append)
  have l2: "length (last_msg_ids ?st2) \<le> 64"
    using l1 by (rule reads_window_length)
  have k1: "auth_key (session_auth_key st1) = Some k" using s a by simp
  have x1: "?x \<in> set (take (Suc 0) (rev (last_msg_ids st1)))"
    unfolding w by (rule newest_is_recent)
  from n have "Suc 0 + length others \<le> 64" by simp
  from reads_keep_recent [OF k1 x1 this, of P S]
  have s2: "session_auth_key ?st2 = a" and x2: "?x \<in> set (last_msg_ids ?st2)"
    using s by simp_all
  have g: "get_auth_key P hs' (session_auth_key ?st2) = (Inr (Some k, kid), a)"
    using get_auth_key_present [of a k P hs'] a s2 by simp
  have u: "?st2\<lparr>session_auth_key := a\<rparr> = ?st2"
    using s2 by simp
  have "read P S hs' fr now' e' ?st2 = (Inl Duplicated_message, ?st2)"
    unfolding read_ready [OF g] accepted(2) u
    using x2 by (simp add: accept_message_def)
  with w m l1 l2 show ?thesis by simp
qed

theorem replay_rejected_witness:
  "read example_primitives example_scheme example_handshake example_frame 0 0
     (MTProto_init example_auth_key)
     = (Inr \<lparr>msg_id = 5, seqno = 3, body = replicate 12 0\<rparr>,
        \<lparr>last_message_id = 4, session_auth_key = example_auth_key, last_msg_ids = [5]\<rparr>)
   \<and> length ([] :: (handshake \<times> frame \<times> int \<times> nat) list) < 64
   \<and> read example_primitives example_scheme example_handshake example_frame 9 9
       (reads example_primitives example_scheme []
          \<lparr>last_message_id = 4, session_auth_key = example_auth_key, last_msg_ids = [5]\<rparr>)
     = (Inl Duplicated_message,
        \<lparr>last_message_id = 4, session_auth_key = example_auth_key, last_msg_ids = [5]\<rparr>)"
proof -
  have n: "length ([] :: (handshake \<times> frame \<times> int \<times> nat) list) < 64" by simp
  note d = replay_rejected [OF example_read n, of example_handshake 9 9,
      THEN conjunct2, THEN conjunct2, THEN conjunct2]
  from example_read n d show ?thesis by simp
qed

text \<open>
  C9. Every call of \<^verbatim>\<open>MTProto.read\<close> that reaches the clock-synchronisation check
  invokes the message-id generator and so mutates \<^verbatim>\<open>_last_message_id\<close>: a read
  that returns, or fails on the clock or later, leaves the id it generated as the
  last id, which is greater than the one before, and the next \<^verbatim>\<open>box_message\<close>
  returns an id strictly greater than the id generated during that read. A read that
  fails earlier leaves the clock alone.
\<close>

theorem read_advances_clock:
  assumes "read P S hs fr now e st = (res, st')"
  shows "if reaches_clock_check res
         then last_message_id st' = fst (get_message_id now e st)
              \<and> last_message_id st < last_message_id st'
              \<and> fst (get_message_id now e st) < snd (fst (box_message sq bd now' e' st'))
         else last_message_id st' = last_message_id st"
proof (cases "reaches_clock_check res")
  case True
  with read_clock [OF assms] have l: "last_message_id st' = fst (get_message_id now e st)"
    by simp
  have "snd (fst (box_message sq bd now' e' st')) = fst (get_message_id now' e' st')"
    by (simp add: box_message_def split: prod.split)
  with l True get_message_id_greater [of st now e] get_message_id_greater [of st' now' e']
  show ?thesis by simp
next
  case False
  with read_clock [OF assms] show ?thesis by simp
qed


theorem read_advances_clock_witness:
  "read example_primitives example_scheme example_handshake example_frame 0 0
     (MTProto_init example_auth_key)
     = (Inr \<lparr>msg_id = 5, seqno = 3, body = replicate 12 0\<rparr>,
        \<lparr>last_message_id = 4, session_auth_key = example_auth_key, last_msg_ids = [5]\<rparr>)
   \<and> reaches_clock_check (Inr \<lparr>msg_id = 5, seqno = 3, body = replicate 12 (0 :: byte)\<rparr>)
   \<and> fst (get_message_id 0 0 (MTProto_init example_auth_key)) = 4
   \<and> fst (get_message_id 0 0 (MTProto_init example_auth_key))
       < snd (fst (box_message 1 [] 0 0
           \<lparr>last_message_id = 4, session_auth_key = example_auth_key, last_msg_ids = [5]\<rparr>))"
proof -
  have r: "reaches_clock_check (Inr \<lparr>msg_id = 5, seqno = 3, body = replicate 12 (0 :: byte)\<rparr>)"
    by (simp add: reaches_clock_check_def)
  from read_advances_clock [OF example_read, of 1 "[]" 0 0] r
  have "4 = fst (get_message_id 0 0 (MTProto_init example_auth_key))
      \<and> fst (get_message_id 0 0 (MTProto_init example_auth_key))
          < snd (fst (box_message 1 [] 0 0
              \<lparr>last_message_id = 4, session_auth_key = example_auth_key, last_msg_ids = [5]\<rparr>))"
    by simp
  with example_read r show ?thesis by simp
qed

subsection \<open>The message-id generator\<close>

text \<open>
  C2. The generator computes \<^verbatim>\<open>m = (floor(unix_time * 2^30) | random_12_bits) * 4\<close>,
  substitutes \<^verbatim>\<open>last + 4\<close> whenever \<^verbatim>\<open>m <= last\<close>, and stores \<^verbatim>\<open>last = m\<close>. On a
  connection, whose \<^verbatim>\<open>last\<close> starts at 0 and so stays a multiple of 4, any two
  successive outputs satisfy \<^verbatim>\<open>m_{i+1} >= m_i + 4\<close>, and every output is a multiple
  of 4.
\<close>

theorem message_id_clock:
  assumes "last_message_id st mod 4 = 0"
  shows "fst (get_message_id now e st) =
           (let m = (now OR randbits 12 e) * 4
            in if m \<le> last_message_id st then last_message_id st + 4 else m)
       \<and> last_message_id (snd (get_message_id now e st)) = fst (get_message_id now e st)
       \<and> (\<forall>m \<in> set (message_ids ins st). m mod 4 = 0)
       \<and> (\<forall>i. Suc i < length (message_ids ins st) \<longrightarrow>
              message_ids ins st ! i + 4 \<le> message_ids ins st ! Suc i)"
proof -
  have a: "fst (get_message_id now e st) =
           (let m = (now OR randbits 12 e) * 4
            in if m \<le> last_message_id st then last_message_id st + 4 else m)"
    by (simp add: get_message_id_def Let_def)
  have b: "last_message_id (snd (get_message_id now e st)) = fst (get_message_id now e st)"
    by (simp add: get_message_id_def Let_def)
  from message_ids_aligned [OF assms, of ins]
  have c: "\<forall>m \<in> set (message_ids ins st). m mod 4 = 0"
    and s: "sorted_wrt (\<lambda>x y. x + 4 \<le> y) (message_ids ins st)" by simp_all
  have d: "\<forall>i. Suc i < length (message_ids ins st) \<longrightarrow>
              message_ids ins st ! i + 4 \<le> message_ids ins st ! Suc i"
    using s by (simp add: sorted_wrt_iff_nth_less)
  show ?thesis using a b c d by blast
qed

lemma example_message_ids:
  "message_ids [(5, 3), (5, 3), (0, 0), (1000, 4097)] (MTProto_init example_auth_key)
     = [28, 32, 36, 4004]"
  by (simp add: get_message_id_def MTProto_init_def randbits_def Let_def)

theorem message_id_clock_witness:
  "last_message_id (MTProto_init example_auth_key) mod 4 = 0
   \<and> fst (get_message_id 5 3 (MTProto_init example_auth_key)) = 28
   \<and> message_ids [(5, 3), (5, 3), (0, 0), (1000, 4097)] (MTProto_init example_auth_key) ! 0 + 4
       \<le> message_ids [(5, 3), (5, 3), (0, 0), (1000, 4097)] (MTProto_init example_auth_key) ! 1
   \<and> message_ids [(5, 3), (5, 3), (0, 0), (1000, 4097)] (MTProto_init example_auth_key) ! 2 mod 4
       = 0"
proof -
  have h: "last_message_id (MTProto_init example_auth_key) mod 4 = 0"
    by (simp add: MTProto_init_def)
  note c = message_id_clock [OF h, of 5 3 "[(5, 3), (5, 3), (0, 0), (1000, 4097)]",
      unfolded example_message_ids]
  from c have a: "fst (get_message_id 5 3 (MTProto_init example_auth_key)) = 28"
    by (simp add: MTProto_init_def randbits_def)
  from c have "\<forall>i. Suc i < length [28, 32, 36, 4004 :: int] \<longrightarrow>
      [28, 32, 36, 4004 :: int] ! i + 4 \<le> [28, 32, 36, 4004] ! Suc i"
    by (elim conjE)
  then have b: "[28, 32, 36, 4004 :: int] ! 0 + 4 \<le> [28, 32, 36, 4004] ! 1"
    by simp
  from c have "\<forall>m \<in> set [28, 32, 36, 4004 :: int]. m mod 4 = 0"
    by (elim conjE)
  then have d: "[28, 32, 36, 4004 :: int] ! 2 mod 4 = 0"
    by simp
  show ?thesis
    unfolding example_message_ids using h a b d by (intro conjI)
qed

subsection \<open>The handshake\<close>

text \<open>
  C6, as the code has it. During the handshake the secret exponent \<open>b\<close> is
  \<^verbatim>\<open>secrets.randbits(2048)\<close>: every value it can take satisfies \<open>0 \<le> b < 2^2048\<close>.
\<close>

theorem handshake_b_range:
  "0 \<le> handshake_b hs \<and> handshake_b hs < 2 ^ 2048"
proof -
  have "b_entropy hs mod 2 ^ 2048 < (2 :: nat) ^ 2048"
    by (rule mod_less_divisor) (rule zero_less_power, simp)
  then have "int (b_entropy hs mod 2 ^ 2048) < int (2 ^ 2048)"
    by (simp only: of_nat_less_iff)
  then show ?thesis
    by (simp only: handshake_b_def randbits_def of_nat_0_le_iff of_nat_power of_nat_numeral
        simp_thms)
qed

text \<open>The draw is not bounded below by 2: with no entropy bit set, \<open>b\<close> is 0.\<close>

theorem handshake_b_range_counterexample:
  "\<not> (2 \<le> handshake_b example_handshake \<and> handshake_b example_handshake < 2 ^ 2048)"
  by (simp add: handshake_b_def randbits_def example_handshake_def)

subsection \<open>AuthKey\<close>






text \<open>
  C10. Constructing \<^verbatim>\<open>AuthKey\<close> with the explicit argument \<^verbatim>\<open>seq_no=0\<close> yields
  an object whose \<^verbatim>\<open>seq_no\<close> is \<open>-1\<close>, since \<^verbatim>\<open>seq_no or -1\<close> treats \<open>0\<close> like an
  absent value; every other supplied \<^verbatim>\<open>seq_no\<close> is stored unchanged.
\<close>

theorem AuthKey_init_seq_no:
  "seq_no (AuthKey_init k kid sid salt (Some 0)) = - 1
   \<and> seq_no (AuthKey_init k kid sid salt (Some n)) = (if n = 0 then - 1 else n)
   \<and> seq_no (AuthKey_init k kid sid salt None) = - 1"
  by (simp add: AuthKey_init_def)

end
